theory Spec2Isabelle
  imports Main
begin

section \<open>The page: a DOM tree, its element objects, and the call handle\<close>

text \<open>
  \<^verbatim>\<open>script.js\<close> is event-handler glue: every function reads and mutates the global
  \<^verbatim>\<open>document\<close> and the SDK call handle \<^verbatim>\<open>this.call\<close>. The model passes that state
  explicitly.

  A DOM node is an object with identity, so nodes are named by keys. The document is a
  forest of keys in document order; what an element object holds (tag, id, classes,
  bound media source, inline display, text, metadata handler) lives in a separate store
  indexed by key. Removing a node from the tree leaves its object in the store, as a
  removed element object stays alive in JavaScript.

  The page is an HTML document with a doctype, where ids and class names compare
  exactly. What the browser and the SDK do by themselves is outside the model: a bound source is
  recorded, not played (the handler installed on \<^verbatim>\<open>loadedmetadata\<close> is recorded as
  installed), and the promise of \<^verbatim>\<open>this.call.leave()\<close> is an input of \<^verbatim>\<open>leave\<close>.
\<close>

type_synonym media_track = nat
  \<comment> \<open>the identity of a \<^verbatim>\<open>MediaStreamTrack\<close> object\<close>

datatype media_stream = MediaStream (stream_ident: nat) (getTracks: "media_track list")
  \<comment> \<open>a \<^verbatim>\<open>MediaStream\<close> object: its identity and the tracks it was built from\<close>

record element =
  localName :: string
  el_id :: "string option"
  classList :: "string list"
  srcObject :: "media_stream option"
  display :: string
  textContent :: string
  onloadedmetadata :: "(string \<times> string) option"
    \<comment> \<open>the closure of lines 105-114, named by the \<^verbatim>\<open>trackType\<close> and
        \<^verbatim>\<open>participantId\<close> it captures; it plays the element and logs a failure\<close>

datatype tree = Tree (key: nat) (children: "tree list")

datatype js_error = TypeError | SyntaxError

record page =
  body :: "tree list"
  props :: "nat \<Rightarrow> element"
  streams :: nat
    \<comment> \<open>number of \<^verbatim>\<open>MediaStream\<close> objects constructed so far; the next one gets
        this number as its identity\<close>
  console :: "string list list"
    \<comment> \<open>the \<^verbatim>\<open>console.error\<close> calls made so far, each with its arguments\<close>
  reconciled :: "(string \<times> string) list"
    \<comment> \<open>call log: one entry \<open>(trackType, participantId)\<close> per entry into
        \<^verbatim>\<open>startOrUpdateTrack\<close>\<close>
  localVideo :: bool
    \<comment> \<open>what \<^verbatim>\<open>this.call.localVideo()\<close> returns\<close>
  localAudio :: bool
    \<comment> \<open>what \<^verbatim>\<open>this.call.localAudio()\<close> returns\<close>
  participants :: nat
    \<comment> \<open>the SDK's participant count\<close>
  countShown :: nat
    \<comment> \<open>the participant-count display\<close>
  selector_engine :: "string \<Rightarrow> tree list \<Rightarrow> (nat \<Rightarrow> element) \<Rightarrow> js_error + nat option"
    \<comment> \<open>what the browser's \<^verbatim>\<open>document.querySelector\<close> does with a selector string that
        this theory does not parse, on a given document: it throws, returns null, or
        returns an element\<close>

record track_info =
  state :: string
  persistentTrack :: "media_track option"

record participant =
  session_id :: string
  local :: bool
  tracks :: "(string \<times> track_info) list"
    \<comment> \<open>\<^verbatim>\<open>Object.entries(tracks)\<close>: the entries in insertion order\<close>

datatype outcome = Normal page | Raised js_error page
  \<comment> \<open>a call returns, or throws; a throw keeps the mutations made before it\<close>

fun state_of :: "outcome \<Rightarrow> page" where
  "state_of (Normal s) = s"
| "state_of (Raised e s) = s"

fun and_then :: "outcome \<Rightarrow> (page \<Rightarrow> outcome) \<Rightarrow> outcome" where
  "and_then (Normal s) f = f s"
| "and_then (Raised e s) f = Raised e s"

fun forEach :: "('a \<Rightarrow> page \<Rightarrow> outcome) \<Rightarrow> 'a list \<Rightarrow> page \<Rightarrow> outcome" where
  "forEach f [] s = Normal s"
| "forEach f (x # xs) s = and_then (f x s) (forEach f xs)"

subsection \<open>Reading the document\<close>

fun walk :: "nat list \<Rightarrow> tree \<Rightarrow> (nat \<times> nat list) list" where
  "walk anc (Tree k ts) = (k, anc) # concat (map (walk (k # anc)) ts)"

definition doc_walk :: "tree list \<Rightarrow> (nat \<times> nat list) list" where
  "doc_walk ts = concat (map (walk []) ts)"
  \<comment> \<open>every node of the document in document order, with its ancestors\<close>

fun keys_of :: "tree \<Rightarrow> nat list" where
  "keys_of (Tree k ts) = k # concat (map keys_of ts)"

definition doc_keys :: "tree list \<Rightarrow> nat list" where
  "doc_keys ts = concat (map keys_of ts)"
  \<comment> \<open>every node of the document in document order\<close>

definition getElementById :: "string \<Rightarrow> page \<Rightarrow> nat option" where
  "getElementById i s = find (\<lambda>k. el_id (props s k) = Some i) (doc_keys (body s))"

datatype compound = ById string | ByTag string | ByTagClass string string
  \<comment> \<open>\<^verbatim>\<open>#i\<close>, \<^verbatim>\<open>t\<close>, \<^verbatim>\<open>t.c\<close>\<close>

datatype selector = Compound compound | Descendant compound compound
  \<comment> \<open>\<^verbatim>\<open>c\<close>, \<^verbatim>\<open>a c\<close>\<close>

fun matches_compound :: "element \<Rightarrow> compound \<Rightarrow> bool" where
  "matches_compound e (ById i) = (el_id e = Some i)"
| "matches_compound e (ByTag t) = (localName e = t)"
| "matches_compound e (ByTagClass t c) = (localName e = t \<and> c \<in> set (classList e))"

fun matches :: "(nat \<Rightarrow> element) \<Rightarrow> selector \<Rightarrow> nat \<times> nat list \<Rightarrow> bool" where
  "matches pr (Compound c) (k, anc) = matches_compound (pr k) c"
| "matches pr (Descendant a c) (k, anc) =
     (matches_compound (pr k) c \<and> list_ex (\<lambda>x. matches_compound (pr x) a) anc)"

definition querySelector :: "selector \<Rightarrow> page \<Rightarrow> nat option" where
  "querySelector sel s = map_option fst (find (matches (props s) sel) (doc_walk (body s)))"

definition querySelectorAll :: "selector list \<Rightarrow> page \<Rightarrow> nat list" where
  "querySelectorAll sels s =
     map fst (filter (\<lambda>x. list_ex (\<lambda>sel. matches (props s) sel x) sels) (doc_walk (body s)))"

definition element_querySelector :: "nat \<Rightarrow> compound \<Rightarrow> page \<Rightarrow> nat option" where
  "element_querySelector el c s =
     map_option fst
       (find (\<lambda>x. el \<in> set (snd x) \<and> matches_compound (props s (fst x)) c) (doc_walk (body s)))"
  \<comment> \<open>\<^verbatim>\<open>el.querySelector(c)\<close>: the first descendant of \<open>el\<close> that matches\<close>

subsection \<open>Mutating the document\<close>

fun prune :: "nat \<Rightarrow> tree \<Rightarrow> tree" where
  "prune k (Tree j ts) = Tree j (filter (\<lambda>t. key t \<noteq> k) (map (prune k) ts))"

definition remove_node :: "nat \<Rightarrow> page \<Rightarrow> page" where
  "remove_node k s = s\<lparr>body := filter (\<lambda>t. key t \<noteq> k) (map (prune k) (body s))\<rparr>"
  \<comment> \<open>\<^verbatim>\<open>el.remove()\<close> and \<^verbatim>\<open>el.parentNode.removeChild(el)\<close> for an element of the
      document: the subtree leaves the tree, the objects stay in the store\<close>

definition set_srcObject :: "nat \<Rightarrow> media_stream option \<Rightarrow> page \<Rightarrow> page" where
  "set_srcObject k v s = s\<lparr>props := (props s)(k := (props s k)\<lparr>srcObject := v\<rparr>)\<rparr>"

definition set_display :: "nat \<Rightarrow> string \<Rightarrow> page \<Rightarrow> page" where
  "set_display k v s = s\<lparr>props := (props s)(k := (props s k)\<lparr>display := v\<rparr>)\<rparr>"

definition set_onloadedmetadata :: "nat \<Rightarrow> (string \<times> string) option \<Rightarrow> page \<Rightarrow> page" where
  "set_onloadedmetadata k v s =
     s\<lparr>props := (props s)(k := (props s k)\<lparr>onloadedmetadata := v\<rparr>)\<rparr>"

fun clear_children :: "nat \<Rightarrow> tree \<Rightarrow> tree" where
  "clear_children k (Tree j ts) =
     (if j = k then Tree j [] else Tree j (map (clear_children k) ts))"

definition set_textContent :: "nat \<Rightarrow> string \<Rightarrow> page \<Rightarrow> page" where
  "set_textContent k v s =
     s\<lparr>body := map (clear_children k) (body s),
       props := (props s)(k := (props s k)\<lparr>textContent := v\<rparr>)\<rparr>"
  \<comment> \<open>the \<^verbatim>\<open>textContent\<close> setter replaces the element's children by the text\<close>

definition console_error :: "string list \<Rightarrow> page \<Rightarrow> page" where
  "console_error args s = s\<lparr>console := console s @ [args]\<rparr>"

section \<open>The functions of script.js\<close>

subsection \<open>startOrUpdateTrack (lines 71-116)\<close>

definition ident_char :: "char \<Rightarrow> bool" where
  "ident_char c =
     (c \<in> set ''abcdefghijklmnopqrstuvwxyzABCDEFGHIJKLMNOPQRSTUVWXYZ0123456789-_'')"

definition digit_char :: "char \<Rightarrow> bool" where
  "digit_char c = (c \<in> set ''0123456789'')"

definition css_name :: "string \<Rightarrow> bool" where
  "css_name x = list_all ident_char x"
  \<comment> \<open>appended to \<^verbatim>\<open>#video-container-\<close>, \<open>x\<close> only makes the id of that one id selector
      longer: SDK session ids (UUIDs) are such\<close>

fun colon_digit :: "string \<Rightarrow> bool" where
  "colon_digit (c # d # cs) = (c = CHR '':'' \<and> digit_char d \<or> colon_digit (d # cs))"
| "colon_digit cs = False"

definition css_rejected :: "string \<Rightarrow> bool" where
  "css_rejected x = (list_all (\<lambda>c. ident_char c \<or> c = CHR '':'') x \<and> colon_digit x)"
  \<comment> \<open>\<open>x\<close> is made of name characters and colons, and some colon is followed by a digit:
      where the selector grammar wants the name of a pseudo-class there is a number, and
      \<^verbatim>\<open>querySelector\<close> throws a SyntaxError\<close>

definition lookup_trackEl :: "string \<Rightarrow> string \<Rightarrow> page \<Rightarrow> js_error + nat option" where
  "lookup_trackEl trackType participantId s =
     (if trackType = ''video''
      then (if css_name participantId
            then Inr (querySelector
                   (Descendant (ById (''video-container-'' @ participantId))
                               (ByTagClass ''video'' ''video-element'')) s)
            else if css_rejected participantId then Inl SyntaxError
            else selector_engine s
                   (''#video-container-'' @ participantId @ '' video.video-element'')
                   (body s) (props s))
      else Inr (getElementById (''audio-'' @ participantId) s))"
  \<comment> \<open>lines 73-82. The selector is \<^verbatim>\<open>participantId\<close> interpolated into a string, which
      the browser parses. Where the id is a name, the string is the selector the code
      means. Where a colon is followed by a digit, the string is no selector. Any other
      string is left to \<open>selector_engine\<close>: it may be another selector (\<^verbatim>\<open>a.b\<close> asks
      for the class \<^verbatim>\<open>b\<close>) or none. \<^verbatim>\<open>getElementById\<close> parses nothing.\<close>

definition startOrUpdateTrack :: "string \<Rightarrow> track_info \<Rightarrow> string \<Rightarrow> page \<Rightarrow> outcome" where
  "startOrUpdateTrack trackType track participantId s0 =
     (let s = s0\<lparr>reconciled := reconciled s0 @ [(trackType, participantId)]\<rparr> in
      case lookup_trackEl trackType participantId s of
        Inl e \<Rightarrow> Raised e s
      | Inr None \<Rightarrow>
          Normal (console_error
            [trackType @ '' element does not exist for participant: '' @ participantId] s)
      | Inr (Some trackEl) \<Rightarrow>
          (let needsUpdate =
             (case srcObject (props s trackEl) of
                None \<Rightarrow> True
              | Some ms \<Rightarrow>
                  (case persistentTrack track of
                     None \<Rightarrow> True
                   | Some t \<Rightarrow> t \<notin> set (getTracks ms)))
           in if needsUpdate
              then (case persistentTrack track of
                      None \<Rightarrow> Raised TypeError s
                    | Some t \<Rightarrow>
                        Normal (set_onloadedmetadata trackEl (Some (trackType, participantId))
                          (set_srcObject trackEl (Some (MediaStream (streams s) [t]))
                             (s\<lparr>streams := Suc (streams s)\<rparr>))))
              else Normal s))"
  \<comment> \<open>\<^verbatim>\<open>new MediaStream([undefined])\<close> throws a TypeError; a list of tracks never
      includes \<^verbatim>\<open>undefined\<close>\<close>

subsection \<open>updateVideoUi (lines 124-142)\<close>

definition updateVideoUi :: "track_info \<Rightarrow> string \<Rightarrow> page \<Rightarrow> outcome" where
  "updateVideoUi track participantId s =
     (case getElementById (''video-container-'' @ participantId) s of
        None \<Rightarrow> Raised TypeError s
      | Some container \<Rightarrow>
          (case element_querySelector container (ByTagClass ''video'' ''video-element'') s of
             None \<Rightarrow> Raised TypeError s
           | Some videoEl \<Rightarrow>
               (if state track = ''off'' then Normal (set_display videoEl ''none'' s)
                else if state track = ''interrupted'' then Normal (set_display videoEl ''none'' s)
                else if state track = ''blocked'' then Normal (set_display videoEl ''none'' s)
                else if state track = ''playable'' then Normal (set_display videoEl '''' s)
                else Normal (set_display videoEl '''' s))))"
  \<comment> \<open>there is no null check: with the container missing \<^verbatim>\<open>.querySelector\<close>, with the
      video element missing \<^verbatim>\<open>.style\<close>, is a property read of \<^verbatim>\<open>null\<close>\<close>

subsection \<open>destroyTracks (lines 152-161)\<close>

definition destroyTrack :: "string \<Rightarrow> string \<Rightarrow> page \<Rightarrow> outcome" where
  "destroyTrack participantId trackType s =
     (case getElementById (trackType @ ''-'' @ participantId) s of
        None \<Rightarrow> Normal s
      | Some element \<Rightarrow> Normal (remove_node element (set_srcObject element None s)))"
  \<comment> \<open>the body of the \<^verbatim>\<open>forEach\<close> callback; an element found by
      \<^verbatim>\<open>getElementById\<close> is in the document, so its \<^verbatim>\<open>parentNode\<close> is not null\<close>

definition destroyTracks :: "string list \<Rightarrow> string \<Rightarrow> page \<Rightarrow> outcome" where
  "destroyTracks trackTypes participantId s = forEach (destroyTrack participantId) trackTypes s"

subsection \<open>updateUiForDevicesState (lines 184-196)\<close>

definition updateUiForDevicesState :: "string \<Rightarrow> track_info \<Rightarrow> page \<Rightarrow> outcome" where
  "updateUiForDevicesState trackType trackInfo s =
     (if trackType = ''video''
      then (case getElementById ''camera-state'' s of
              None \<Rightarrow> Raised TypeError s
            | Some el \<Rightarrow>
                Normal (set_textContent el
                  (''Camera: '' @ (if localVideo s then ''On'' else ''Off'')) s))
      else if trackType = ''audio''
      then (case getElementById ''mic-state'' s of
              None \<Rightarrow> Raised TypeError s
            | Some el \<Rightarrow>
                Normal (set_textContent el
                  (''Mic: '' @ (if localAudio s then ''On'' else ''Off'')) s))
      else Normal s)"

subsection \<open>The methods the handler calls that script.js does not define\<close>

definition blank :: "string \<Rightarrow> string option \<Rightarrow> string list \<Rightarrow> element" where
  "blank t i cs =
     \<lparr>localName = t, el_id = i, classList = cs, srcObject = None, display = '''',
      textContent = '''', onloadedmetadata = None\<rparr>"
  \<comment> \<open>what \<^verbatim>\<open>document.createElement(t)\<close> returns, with id and classes set\<close>

definition fresh_key :: "tree list \<Rightarrow> nat" where
  "fresh_key ts = Suc (fold max (doc_keys ts) 0)"
  \<comment> \<open>the key of a new element object: above every key of the document\<close>

fun graft :: "nat \<Rightarrow> tree \<Rightarrow> tree \<Rightarrow> tree"
  and graft_list :: "nat \<Rightarrow> tree \<Rightarrow> tree list \<Rightarrow> tree list" where
  "graft p new (Tree j ts) =
     (if j = p then Tree j (ts @ [new]) else Tree j (graft_list p new ts))"
| "graft_list p new [] = []"
| "graft_list p new (t # ts) =
     (if p \<in> set (keys_of t) then graft p new t # ts else t # graft_list p new ts)"
  \<comment> \<open>\<^verbatim>\<open>p.appendChild(new)\<close> for the first node \<open>p\<close> of the document\<close>

definition house :: "tree \<Rightarrow> page \<Rightarrow> tree list" where
  "house new s =
     (case getElementById ''videos'' s of
        Some root \<Rightarrow> graft_list root new (body s)
      | None \<Rightarrow> body s @ [new])"
  \<comment> \<open>the new element becomes the last child of \<^verbatim>\<open>#videos\<close>\<close>

definition updateAndDisplayParticipantCount :: "page \<Rightarrow> page" where
  "updateAndDisplayParticipantCount s = s\<lparr>countShown := participants s\<rparr>"
  \<comment> \<open>Modelled from the spec: \<^verbatim>\<open>updateAndDisplayParticipantCount\<close> is called at line 20
      and defined nowhere in the source. The spec (4.1) says only that the handler
      refreshes a global participant-count display; the display is the field
      \<open>countShown\<close>, refreshed from the SDK's count.\<close>

definition createVideoContainer :: "string \<Rightarrow> page \<Rightarrow> page" where
  "createVideoContainer participantId s =
     (let c = fresh_key (body s); v = Suc c in
      s\<lparr>body := house (Tree c [Tree v []]) s,
        props := (props s)
          (c := blank ''div'' (Some (''video-container-'' @ participantId)) [''video-container''],
           v := blank ''video'' None [''video-element''])\<rparr>)"
  \<comment> \<open>Modelled from the spec: \<^verbatim>\<open>createVideoContainer\<close> is called at line 24 and defined
      nowhere in the source. The spec (4.1, 6) says that one container with id
      \<^verbatim>\<open>video-container-{id}\<close> is created, that it contains a \<^verbatim>\<open>video.video-element\<close>
      child, and that \<^verbatim>\<open>#videos\<close> is the root housing all video and audio elements.
      Creation always succeeds; on a page without \<^verbatim>\<open>#videos\<close> the container goes to the
      end of the document.\<close>

definition createAudioElement :: "string \<Rightarrow> page \<Rightarrow> page" where
  "createAudioElement participantId s =
     (let a = fresh_key (body s) in
      s\<lparr>body := house (Tree a []) s,
        props := (props s)(a := blank ''audio'' (Some (''audio-'' @ participantId)) [])\<rparr>)"
  \<comment> \<open>Modelled from the spec: \<^verbatim>\<open>createAudioElement\<close> is called at line 29 and defined
      nowhere in the source. The spec (4.1, 6) says that one audio element with id
      \<^verbatim>\<open>audio-{id}\<close> is created, housed like the container.\<close>

subsection \<open>handleParticipantJoinedOrUpdated (lines 13-56)\<close>

record event =
  participant :: participant

definition track_entry :: "bool \<Rightarrow> string \<Rightarrow> string \<times> track_info \<Rightarrow> page \<Rightarrow> outcome" where
  "track_entry isLocal participantId entry s =
     (let trackType = fst entry; trackInfo = snd entry in
      and_then
        (and_then
           (if persistentTrack trackInfo \<noteq> None
            then (if \<not> (isLocal \<and> trackType = ''audio'')
                  then startOrUpdateTrack trackType trackInfo participantId s
                  else Normal s)
            else destroyTracks [trackType] participantId s)
           (\<lambda>s. if trackType = ''video'' then updateVideoUi trackInfo participantId s
                else Normal s))
        (\<lambda>s. if isLocal then updateUiForDevicesState trackType trackInfo s else Normal s))"
  \<comment> \<open>the callback of lines 32-55\<close>

definition handleParticipantJoinedOrUpdated :: "event \<Rightarrow> page \<Rightarrow> outcome" where
  "handleParticipantJoinedOrUpdated ev s0 =
     (let participantId = session_id (participant ev);
          isLocal = local (participant ev);
          s1 = updateAndDisplayParticipantCount s0;
          s2 = (if getElementById (''video-container-'' @ participantId) s1 = None
                then createVideoContainer participantId s1 else s1);
          s3 = (if getElementById (''audio-'' @ participantId) s2 = None \<and> \<not> isLocal
                then createAudioElement participantId s2 else s2)
      in forEach (track_entry isLocal participantId) (tracks (participant ev)) s3)"

definition dispatch :: "event list \<Rightarrow> page \<Rightarrow> page" where
  "dispatch evs s = fold (\<lambda>ev s. state_of (handleParticipantJoinedOrUpdated ev s)) evs s"
  \<comment> \<open>the SDK delivers events one at a time, in order; a handler that throws does not
      stop the delivery of later events\<close>

subsection \<open>leave (lines 201-211)\<close>

datatype sdk_reply = Resolved | Rejected string
  \<comment> \<open>how the promise of \<^verbatim>\<open>this.call.leave()\<close> settles\<close>

definition cleanup_selector :: "selector list" where
  "cleanup_selector = [Descendant (ById ''videos'') (ByTag ''video''), Compound (ByTag ''audio'')]"
  \<comment> \<open>\<^verbatim>\<open>'#videos video, audio'\<close>\<close>

definition leave :: "sdk_reply \<Rightarrow> page \<Rightarrow> outcome" where
  "leave reply s =
     (case reply of
        Resolved \<Rightarrow>
          forEach (\<lambda>el s. Normal (remove_node el (set_srcObject el None s)))
            (querySelectorAll cleanup_selector s) s
      | Rejected e \<Rightarrow> Normal (console_error [''Leaving failed'', e] s))"
  \<comment> \<open>nothing in the \<^verbatim>\<open>try\<close> block after the \<^verbatim>\<open>await\<close> can throw, so the
      \<^verbatim>\<open>catch\<close> runs exactly when the promise rejects\<close>

section \<open>Vocabulary of the properties\<close>

definition outside :: "nat \<Rightarrow> nat \<times> nat list \<Rightarrow> bool" where
  "outside k x = (fst x \<noteq> k \<and> k \<notin> set (snd x))"
  \<comment> \<open>the node \<open>x\<close> is neither \<open>k\<close> nor below \<open>k\<close>\<close>

definition detach_remove :: "nat \<Rightarrow> page \<Rightarrow> page" where
  "detach_remove el s = remove_node el (set_srcObject el None s)"
  \<comment> \<open>\<^verbatim>\<open>el.srcObject = null; el.remove()\<close>, the body of the loop in \<^verbatim>\<open>leave\<close>\<close>

definition count_where :: "(string \<Rightarrow> string option \<Rightarrow> bool) \<Rightarrow> page \<Rightarrow> nat" where
  "count_where P s =
     length (filter (\<lambda>k. P (localName (props s k)) (el_id (props s k))) (doc_keys (body s)))"
  \<comment> \<open>how many nodes of the document have a tag and an id that satisfy \<open>P\<close>\<close>

definition count_id :: "string \<Rightarrow> page \<Rightarrow> nat" where
  "count_id i s = count_where (\<lambda>t j. j = Some i) s"

definition foreign_video_id :: "string list \<Rightarrow> string option \<Rightarrow> bool" where
  "foreign_video_id qs i =
     (case i of
        None \<Rightarrow> False
      | Some x \<Rightarrow> take 6 x = ''video-'' \<and> drop 6 x \<notin> set (map (\<lambda>q. ''container-'' @ q) qs))"
  \<comment> \<open>an id that begins with \<^verbatim>\<open>video-\<close> and is not the container id of a participant
      in \<open>qs\<close>\<close>

definition conventional :: "string list \<Rightarrow> page \<Rightarrow> bool" where
  "conventional qs s =
     list_all (\<lambda>k. \<not> foreign_video_id qs (el_id (props s k))) (doc_keys (body s))"
  \<comment> \<open>The ids the spec documents (section 6) are \<^verbatim>\<open>videos\<close>, \<^verbatim>\<open>camera-state\<close>,
      \<^verbatim>\<open>mic-state\<close>, \<^verbatim>\<open>video-container-{id}\<close> and \<^verbatim>\<open>audio-{id}\<close>. What matters of
      that here: on the page, the only ids beginning with \<^verbatim>\<open>video-\<close> are the
      container ids of the participants \<open>qs\<close>.\<close>

section \<open>Sample pages and events\<close>

text \<open>
  The participant ids of the samples are names, or are rejected by the selector
  grammar, so that \<open>selector_engine\<close> is never consulted on them.
\<close>

definition bare_page :: page where
  "bare_page =
     \<lparr>body = [Tree 0 [], Tree 1 [], Tree 2 []],
      props = (\<lambda>_. blank ''div'' None [])
        (0 := blank ''div'' (Some ''videos'') [],
         1 := blank ''span'' (Some ''camera-state'') [],
         2 := blank ''span'' (Some ''mic-state'') []),
      streams = 0, console = [], reconciled = [],
      localVideo = True, localAudio = False, participants = 1, countShown = 0,
      selector_engine = (\<lambda>sel doc els. Inr None)\<rparr>"
  \<comment> \<open>the page before anyone has joined: \<^verbatim>\<open>#videos\<close> and the two device labels\<close>

definition bound_page :: page where
  "bound_page =
     \<lparr>body = [Tree 0 [Tree 3 [Tree 4 []], Tree 5 []], Tree 1 [], Tree 2 []],
      props = (\<lambda>_. blank ''div'' None [])
        (0 := blank ''div'' (Some ''videos'') [],
         1 := blank ''span'' (Some ''camera-state'') [],
         2 := blank ''span'' (Some ''mic-state'') [],
         3 := blank ''div'' (Some ''video-container-p'') [''video-container''],
         4 := (blank ''video'' None [''video-element''])
                \<lparr>srcObject := Some (MediaStream 0 [7]),
                 onloadedmetadata := Some (''video'', ''p'')\<rparr>,
         5 := (blank ''audio'' (Some ''audio-p'') [])
                \<lparr>srcObject := Some (MediaStream 1 [8]),
                 onloadedmetadata := Some (''audio'', ''p'')\<rparr>),
      streams = 2, console = [], reconciled = [(''video'', ''p''), (''audio'', ''p'')],
      localVideo = True, localAudio = False, participants = 2, countShown = 2,
      selector_engine = (\<lambda>sel doc els. Inr None)\<rparr>"
  \<comment> \<open>remote participant \<^verbatim>\<open>p\<close> has a container (node 3) with a bound video element
      (node 4) and a bound audio element (node 5)\<close>

definition childless_page :: page where
  "childless_page =
     \<lparr>body = [Tree 0 [Tree 3 [], Tree 4 []], Tree 1 [], Tree 2 []],
      props = (\<lambda>_. blank ''div'' None [])
        (0 := blank ''div'' (Some ''videos'') [],
         1 := blank ''span'' (Some ''camera-state'') [],
         2 := blank ''span'' (Some ''mic-state'') [],
         3 := blank ''div'' (Some ''video-container-p'') [''video-container''],
         4 := blank ''audio'' (Some ''audio-p'') []),
      streams = 0, console = [], reconciled = [],
      localVideo = True, localAudio = False, participants = 2, countShown = 1,
      selector_engine = (\<lambda>sel doc els. Inr None)\<rparr>"
  \<comment> \<open>the container of \<^verbatim>\<open>p\<close> (node 3) is on the page, with no video element in it;
      the audio element of \<^verbatim>\<open>p\<close> is node 4\<close>

definition stray_page :: page where
  "stray_page =
     \<lparr>body = [Tree 0 [Tree 3 [Tree 4 []], Tree 5 []], Tree 1 [Tree 6 []], Tree 7 []],
      props = (\<lambda>_. blank ''div'' None [])
        (0 := blank ''div'' (Some ''videos'') [],
         1 := blank ''div'' (Some ''preview'') [],
         3 := blank ''div'' (Some ''video-container-p'') [''video-container''],
         4 := (blank ''video'' None [''video-element''])
                \<lparr>srcObject := Some (MediaStream 0 [7])\<rparr>,
         5 := (blank ''audio'' (Some ''audio-p'') [])
                \<lparr>srcObject := Some (MediaStream 1 [8])\<rparr>,
         6 := (blank ''video'' None [])\<lparr>srcObject := Some (MediaStream 2 [9])\<rparr>,
         7 := (blank ''audio'' (Some ''audio-q'') [])
                \<lparr>srcObject := Some (MediaStream 3 [10])\<rparr>),
      streams = 4, console = [], reconciled = [],
      localVideo = True, localAudio = False, participants = 3, countShown = 3,
      selector_engine = (\<lambda>sel doc els. Inr None)\<rparr>"
  \<comment> \<open>besides the elements of \<^verbatim>\<open>p\<close> under \<^verbatim>\<open>#videos\<close>, a video element (node 6)
      and an audio element (node 7) outside \<^verbatim>\<open>#videos\<close>\<close>

definition sample_event ::
  "string \<Rightarrow> bool \<Rightarrow> string \<Rightarrow> media_track option \<Rightarrow> media_track option \<Rightarrow> event" where
  "sample_event i l st v a =
     \<lparr>participant = \<lparr>session_id = i, local = l,
        tracks = [(''video'', \<lparr>state = st, persistentTrack = v\<rparr>),
                  (''audio'', \<lparr>state = st, persistentTrack = a\<rparr>)]\<rparr>\<rparr>"
  \<comment> \<open>an event for participant \<open>i\<close> with a video and an audio descriptor\<close>

lemmas model_defs =
  Let_def doc_walk_def doc_keys_def getElementById_def querySelector_def querySelectorAll_def
  element_querySelector_def remove_node_def set_srcObject_def set_display_def
  set_onloadedmetadata_def set_textContent_def console_error_def lookup_trackEl_def
  startOrUpdateTrack_def updateVideoUi_def destroyTrack_def destroyTracks_def
  updateUiForDevicesState_def blank_def fresh_key_def house_def
  updateAndDisplayParticipantCount_def createVideoContainer_def createAudioElement_def
  track_entry_def handleParticipantJoinedOrUpdated_def dispatch_def cleanup_selector_def
  leave_def sample_event_def ident_char_def digit_char_def css_name_def css_rejected_def

section \<open>The document after a removal\<close>

lemma fst_walk: "map fst (walk anc t) = keys_of t"
proof (induction t arbitrary: anc)
  case (Tree k ts)
  then have "map (\<lambda>t. map fst (walk (k # anc) t)) ts = map keys_of ts"
    by simp
  then show ?case by (simp add: map_concat comp_def cong: map_cong)
qed

lemma fst_doc_walk: "map fst (doc_walk ts) = doc_keys ts"
  by (simp add: doc_walk_def doc_keys_def map_concat comp_def fst_walk)

lemma walk_entry:
  "(j, a) \<in> set (walk anc t) \<Longrightarrow> set anc \<subseteq> set a \<and> (j = key t \<and> a = anc \<or> key t \<in> set a)"
proof (induction t arbitrary: anc)
  case (Tree k ts)
  show ?case
  proof (cases "(j, a) = (k, anc)")
    case True
    then show ?thesis by simp
  next
    case False
    with Tree.prems obtain c where c: "c \<in> set ts" "(j, a) \<in> set (walk (k # anc) c)"
      by auto
    from Tree.IH [OF c] show ?thesis by auto
  qed
qed

lemma outside_pair [simp]: "outside k (j, a) = (j \<noteq> k \<and> k \<notin> set a)"
  by (simp add: outside_def)

lemma walk_removed: "key t = k \<Longrightarrow> filter (outside k) (walk anc t) = []"
  by (auto simp: filter_empty_conv outside_def dest: walk_entry)

lemma key_prune [simp]: "key (prune k t) = key t"
  by (cases t) simp

lemma walk_prune:
  "k \<notin> set anc \<Longrightarrow> key t \<noteq> k \<Longrightarrow> walk anc (prune k t) = filter (outside k) (walk anc t)"
proof (induction t arbitrary: anc)
  case (Tree j ts)
  have kids: "concat (map (walk (j # anc)) (filter (\<lambda>t. key t \<noteq> k) (map (prune k) cs))) =
              filter (outside k) (concat (map (walk (j # anc)) cs))"
    if "set cs \<subseteq> set ts" for cs
    using that
  proof (induction cs)
    case Nil
    then show ?case by simp
  next
    case (Cons c cs)
    show ?case
    proof (cases "key c = k")
      case True
      then show ?thesis using Cons by (simp add: walk_removed)
    next
      case False
      have "walk (j # anc) (prune k c) = filter (outside k) (walk (j # anc) c)"
        using Tree.IH [of c "j # anc"] Tree.prems Cons.prems False by simp
      then show ?thesis using Cons False by simp
    qed
  qed
  show ?case using Tree.prems kids [of ts] by simp
qed

lemma doc_walk_remove:
  "doc_walk (filter (\<lambda>t. key t \<noteq> k) (map (prune k) b)) = filter (outside k) (doc_walk b)"
proof (induction b)
  case Nil
  then show ?case by (simp add: doc_walk_def)
next
  case (Cons t b)
  show ?case
  proof (cases "key t = k")
    case True
    then show ?thesis using Cons by (simp add: doc_walk_def walk_removed)
  next
    case False
    then show ?thesis using Cons by (simp add: doc_walk_def walk_prune)
  qed
qed

lemma walk_clear_children:
  "k \<notin> set anc \<Longrightarrow> walk anc (clear_children k t) = filter (\<lambda>x. k \<notin> set (snd x)) (walk anc t)"
proof (induction t arbitrary: anc)
  case (Tree j ts)
  show ?case
  proof (cases "j = k")
    case True
    have "filter (\<lambda>x. k \<notin> set (snd x)) (concat (map (walk (k # anc)) ts)) = []"
      by (auto simp: filter_empty_conv dest!: walk_entry)
    then show ?thesis using True Tree.prems by simp
  next
    case False
    have "map (walk (j # anc)) (map (clear_children k) ts) =
          map (\<lambda>t. filter (\<lambda>x. k \<notin> set (snd x)) (walk (j # anc) t)) ts"
      using Tree.IH [of _ "j # anc"] Tree.prems False by simp
    then show ?thesis using False Tree.prems by (simp add: filter_concat comp_def cong: map_cong)
  qed
qed

lemma doc_walk_clear_children:
  "doc_walk (map (clear_children k) b) = filter (\<lambda>x. k \<notin> set (snd x)) (doc_walk b)"
  by (simp add: doc_walk_def walk_clear_children filter_concat comp_def)

lemma walk_ancestor:
  "(k, anc) \<in> set (walk anc0 t) \<Longrightarrow> a \<in> set anc \<Longrightarrow>
     a \<in> set anc0 \<or> (\<exists>aa. (a, aa) \<in> set (walk anc0 t) \<and> set aa \<subseteq> set anc)"
proof (induction t arbitrary: anc0)
  case (Tree j ts)
  show ?case
  proof (cases "(k, anc) = (j, anc0)")
    case True
    then show ?thesis using Tree.prems by simp
  next
    case False
    with Tree.prems obtain c where c: "c \<in> set ts" "(k, anc) \<in> set (walk (j # anc0) c)"
      by auto
    from Tree.IH [OF c Tree.prems(2)]
    consider "a = j" | "a \<in> set anc0"
      | aa where "(a, aa) \<in> set (walk (j # anc0) c)" "set aa \<subseteq> set anc"
      by auto
    then show ?thesis
    proof cases
      case 1
      have "set anc0 \<subseteq> set anc" using walk_entry [OF c(2)] by simp
      then show ?thesis using 1 by auto
    next
      case 2
      then show ?thesis by simp
    next
      case 3
      then show ?thesis using c(1) by auto
    qed
  qed
qed

lemma doc_walk_ancestor:
  assumes "(k, anc) \<in> set (doc_walk b)" and "a \<in> set anc"
  shows "\<exists>aa. (a, aa) \<in> set (doc_walk b) \<and> set aa \<subseteq> set anc"
proof -
  from assms(1) obtain t where t: "t \<in> set b" "(k, anc) \<in> set (walk [] t)"
    by (auto simp: doc_walk_def)
  from walk_ancestor [OF t(2) assms(2)] t(1) show ?thesis
    by (auto simp: doc_walk_def)
qed

section \<open>Reconciling the media source\<close>

lemma lookup_trackEl_reconciled [simp]:
  "lookup_trackEl tt pid (s\<lparr>reconciled := r\<rparr>) = lookup_trackEl tt pid s"
  by (simp add: lookup_trackEl_def querySelector_def getElementById_def)




text \<open>
  C5. When the target element exists and the descriptor carries a live handle \<open>t\<close>:
  if \<open>t\<close> is among the tracks of the element's bound source, nothing about the page
  changes (same source object, no new metadata handler, so no restart); otherwise the
  element's source becomes a newly constructed stream holding exactly \<open>[t]\<close>, whatever
  was bound before, and the play-on-metadata handler is installed.
\<close>

theorem startOrUpdateTrack_rebinds:
  assumes "lookup_trackEl trackType participantId s = Inr (Some trackEl)"
    and "persistentTrack track = Some t"
  shows "startOrUpdateTrack trackType track participantId s =
     Normal (if \<exists>ms. srcObject (props s trackEl) = Some ms \<and> t \<in> set (getTracks ms)
       then s\<lparr>reconciled := reconciled s @ [(trackType, participantId)]\<rparr>
       else s\<lparr>reconciled := reconciled s @ [(trackType, participantId)],
              streams := Suc (streams s),
              props := (props s)(trackEl := (props s trackEl)
                \<lparr>srcObject := Some (MediaStream (streams s) [t]),
                 onloadedmetadata := Some (trackType, participantId)\<rparr>)\<rparr>)"
  using assms
  by (auto simp add: startOrUpdateTrack_def set_onloadedmetadata_def set_srcObject_def
      split: option.splits)

theorem startOrUpdateTrack_rebinds_witness:
  "lookup_trackEl ''video'' ''p'' bound_page = Inr (Some 4) \<and>
   startOrUpdateTrack ''video'' \<lparr>state = ''playable'', persistentTrack = Some 7\<rparr> ''p''
       bound_page =
     Normal (bound_page\<lparr>reconciled := reconciled bound_page @ [(''video'', ''p'')]\<rparr>) \<and>
   srcObject (props (state_of
     (startOrUpdateTrack ''video'' \<lparr>state = ''playable'', persistentTrack = Some 9\<rparr> ''p''
        bound_page)) 4) = Some (MediaStream 2 [9])"
proof -
  have h: "lookup_trackEl ''video'' ''p'' bound_page = Inr (Some 4)"
    by (simp add: model_defs bound_page_def)
  have same: "startOrUpdateTrack ''video'' \<lparr>state = ''playable'', persistentTrack = Some 7\<rparr>
      ''p'' bound_page =
     Normal (bound_page\<lparr>reconciled := reconciled bound_page @ [(''video'', ''p'')]\<rparr>)"
    using startOrUpdateTrack_rebinds
      [OF h, of "\<lparr>state = ''playable'', persistentTrack = Some 7\<rparr>" 7]
    by (simp add: bound_page_def blank_def)
  have other: "srcObject (props (state_of
     (startOrUpdateTrack ''video'' \<lparr>state = ''playable'', persistentTrack = Some 9\<rparr> ''p''
        bound_page)) 4) = Some (MediaStream 2 [9])"
    using startOrUpdateTrack_rebinds
      [OF h, of "\<lparr>state = ''playable'', persistentTrack = Some 9\<rparr>" 9]
    by (simp add: bound_page_def blank_def)
  show ?thesis using h same other by simp
qed

section \<open>Visibility of the video element\<close>

text \<open>
  C4. When the participant's container and its video element exist,
  \<^verbatim>\<open>updateVideoUi\<close> sets the video element's display to \<^verbatim>\<open>none\<close> for the states
  off, interrupted and blocked, and to the empty string (visible) for playable and
  for every other state; nothing else on the page changes.
\<close>

theorem updateVideoUi_visibility:
  assumes "getElementById (''video-container-'' @ participantId) s = Some container"
    and "element_querySelector container (ByTagClass ''video'' ''video-element'') s =
           Some videoEl"
  shows "updateVideoUi track participantId s =
     Normal (s\<lparr>props := (props s)(videoEl := (props s videoEl)
       \<lparr>display := (if state track \<in> {''off'', ''interrupted'', ''blocked''}
                    then ''none'' else '''')\<rparr>)\<rparr>)"
  using assms by (simp add: updateVideoUi_def set_display_def)

theorem updateVideoUi_visibility_witness:
  "getElementById (''video-container-'' @ ''p'') bound_page = Some 3 \<and>
   element_querySelector 3 (ByTagClass ''video'' ''video-element'') bound_page = Some 4 \<and>
   display (props (state_of
     (updateVideoUi \<lparr>state = ''interrupted'', persistentTrack = Some 7\<rparr> ''p'' bound_page)) 4)
     = ''none'' \<and>
   display (props (state_of
     (updateVideoUi \<lparr>state = ''sendable'', persistentTrack = Some 7\<rparr> ''p'' bound_page)) 4)
     = ''''"
proof -
  have c: "getElementById (''video-container-'' @ ''p'') bound_page = Some 3"
    by (simp add: model_defs bound_page_def)
  have v: "element_querySelector 3 (ByTagClass ''video'' ''video-element'') bound_page = Some 4"
    by (simp add: model_defs bound_page_def)
  show ?thesis
    using c v
      updateVideoUi_visibility
        [OF c v, of "\<lparr>state = ''interrupted'', persistentTrack = Some 7\<rparr>"]
      updateVideoUi_visibility
        [OF c v, of "\<lparr>state = ''sendable'', persistentTrack = Some 7\<rparr>"]
    by simp
qed

section \<open>Which calls the handler makes\<close>

lemma reconciled_startOrUpdateTrack:
  "reconciled (state_of (startOrUpdateTrack tt ti pid s)) = reconciled s @ [(tt, pid)]"
  by (simp add: startOrUpdateTrack_def console_error_def set_onloadedmetadata_def
      set_srcObject_def Let_def split: option.splits sum.splits)

lemma reconciled_forEach_destroyTrack:
  "reconciled (state_of (forEach (destroyTrack pid) tts s)) = reconciled s"
proof (induction tts arbitrary: s)
  case Nil
  then show ?case by simp
next
  case (Cons tt tts)
  then show ?case
    by (simp add: destroyTrack_def remove_node_def set_srcObject_def split: option.splits)
qed

lemma reconciled_destroyTracks:
  "reconciled (state_of (destroyTracks tts pid s)) = reconciled s"
  by (simp add: destroyTracks_def reconciled_forEach_destroyTrack)

lemma reconciled_updateVideoUi:
  "reconciled (state_of (updateVideoUi ti pid s)) = reconciled s"
  by (simp add: updateVideoUi_def set_display_def split: option.splits)

lemma reconciled_updateUiForDevicesState:
  "reconciled (state_of (updateUiForDevicesState tt ti s)) = reconciled s"
  by (simp add: updateUiForDevicesState_def set_textContent_def split: option.splits)

lemma reconciled_and_then:
  assumes "\<And>s. reconciled (state_of (f s)) = reconciled s"
  shows "reconciled (state_of (and_then r f)) = reconciled (state_of r)"
  using assms by (cases r) simp_all

lemma reconciled_track_entry:
  "reconciled (state_of (track_entry isLocal pid entry s)) =
     reconciled s @
       (if persistentTrack (snd entry) \<noteq> None \<and> \<not> (isLocal \<and> fst entry = ''audio'')
        then [(fst entry, pid)] else [])"
  unfolding track_entry_def Let_def
  by (subst reconciled_and_then, simp add: reconciled_updateUiForDevicesState,
      subst reconciled_and_then, simp add: reconciled_updateVideoUi,
      simp add: reconciled_startOrUpdateTrack reconciled_destroyTracks)

lemma reconciled_forEach_track_entry:
  "local_flag \<Longrightarrow>
   \<exists>new. reconciled (state_of (forEach (track_entry local_flag pid) entries s)) =
            reconciled s @ new \<and> ''audio'' \<notin> fst ` set new"
proof (induction entries arbitrary: s)
  case Nil
  then show ?case by simp
next
  case (Cons entry entries)
  let ?r = "track_entry local_flag pid entry s"
  have step: "\<exists>new. reconciled (state_of ?r) = reconciled s @ new \<and> ''audio'' \<notin> fst ` set new"
    using Cons.prems by (auto simp add: reconciled_track_entry)
  show ?case
  proof (cases ?r)
    case (Normal s1)
    from Cons.IH [OF Cons.prems, of s1] step Normal show ?thesis
      by auto
  next
    case (Raised e s1)
    with step show ?thesis by simp
  qed
qed

text \<open>
  C6. While an event for the local participant is handled, \<^verbatim>\<open>startOrUpdateTrack\<close> is
  never entered with track type \<^verbatim>\<open>audio\<close>: the call log grows by entries none of
  which is for audio, whatever the descriptors carry (a live audio handle included)
  and whether the handler returns or throws.
\<close>

theorem local_audio_never_reconciled:
  assumes "local (participant ev)"
  shows "\<exists>new. reconciled (state_of (handleParticipantJoinedOrUpdated ev s)) =
                 reconciled s @ new \<and> ''audio'' \<notin> fst ` set new"
proof -
  let ?pid = "session_id (participant ev)"
  let ?s1 = "updateAndDisplayParticipantCount s"
  let ?s2 = "if getElementById (''video-container-'' @ ?pid) ?s1 = None
             then createVideoContainer ?pid ?s1 else ?s1"
  have "reconciled ?s2 = reconciled s"
    by (simp add: updateAndDisplayParticipantCount_def createVideoContainer_def Let_def)
  moreover have "handleParticipantJoinedOrUpdated ev s =
      forEach (track_entry True ?pid) (tracks (participant ev)) ?s2"
    using assms by (simp add: handleParticipantJoinedOrUpdated_def Let_def)
  ultimately show ?thesis
    using reconciled_forEach_track_entry [of True ?pid "tracks (participant ev)" ?s2]
    by simp
qed

theorem local_audio_never_reconciled_witness:
  "local (participant (sample_event ''me'' True ''playable'' (Some 7) (Some 8))) \<and>
   (\<exists>new. reconciled (state_of (handleParticipantJoinedOrUpdated
              (sample_event ''me'' True ''playable'' (Some 7) (Some 8)) bare_page)) =
            reconciled bare_page @ new \<and> ''audio'' \<notin> fst ` set new) \<and>
   reconciled (state_of (handleParticipantJoinedOrUpdated
              (sample_event ''me'' True ''playable'' (Some 7) (Some 8)) bare_page)) =
     [(''video'', ''me'')]"
proof -
  have l: "local (participant (sample_event ''me'' True ''playable'' (Some 7) (Some 8)))"
    by (simp add: sample_event_def)
  have e: "reconciled (state_of (handleParticipantJoinedOrUpdated
              (sample_event ''me'' True ''playable'' (Some 7) (Some 8)) bare_page)) =
     [(''video'', ''me'')]"
    by (simp add: model_defs bare_page_def)
  show ?thesis
    using l e local_audio_never_reconciled [OF l, of bare_page] by simp
qed

section \<open>Leaving the call\<close>

lemma forEach_Normal: "forEach (\<lambda>x s. Normal (g x s)) xs s = Normal (fold g xs s)"
  by (induction xs arbitrary: s) simp_all

lemma leave_Resolved:
  "leave Resolved s = Normal (fold detach_remove (querySelectorAll cleanup_selector s) s)"
  by (simp add: leave_def detach_remove_def [abs_def] forEach_Normal)

lemma walk_fold_detach_remove:
  "doc_walk (body (fold detach_remove ks s)) =
     filter (\<lambda>x. \<forall>k\<in>set ks. outside k x) (doc_walk (body s))"
proof (induction ks arbitrary: s)
  case Nil
  then show ?case by simp
next
  case (Cons k ks)
  have "doc_walk (body (detach_remove k s)) = filter (outside k) (doc_walk (body s))"
    by (simp add: detach_remove_def remove_node_def set_srcObject_def doc_walk_remove)
  then show ?case using Cons [of "detach_remove k s"] by (auto intro: filter_cong)
qed

lemma props_fold_detach_remove:
  "props (fold detach_remove ks s) j =
     (if j \<in> set ks then (props s j)\<lparr>srcObject := None\<rparr> else props s j)"
proof (induction ks arbitrary: s)
  case Nil
  then show ?case by simp
next
  case (Cons k ks)
  have "props (detach_remove k s) = (props s)(k := (props s k)\<lparr>srcObject := None\<rparr>)"
    by (simp add: detach_remove_def remove_node_def set_srcObject_def)
  then show ?case using Cons [of "detach_remove k s"] by simp
qed


lemma matches_compound_srcObject [simp]:
  "matches_compound (e\<lparr>srcObject := v\<rparr>) c = matches_compound e c"
  by (cases c) simp_all

lemma matches_fold_detach_remove:
  "matches (props (fold detach_remove ks s)) sel x = matches (props s) sel x"
proof -
  have c: "matches_compound (props (fold detach_remove ks s) j) c = matches_compound (props s j) c"
    for j c
    by (simp add: props_fold_detach_remove)
  show ?thesis
    by (cases sel; cases x) (simp_all add: c list_ex_iff)
qed

lemma selected_not_outside:
  assumes "x \<in> set (doc_walk (body s))" and "list_ex (\<lambda>sel. matches (props s) sel x) sels"
  shows "\<exists>k\<in>set (querySelectorAll sels s). \<not> outside k x"
proof -
  have "fst x \<in> set (querySelectorAll sels s)"
    using assms by (force simp: querySelectorAll_def)
  moreover have "\<not> outside (fst x) x"
    by (simp add: outside_def)
  ultimately show ?thesis by blast
qed

lemma selected_entry:
  "k \<in> set (querySelectorAll sels s) \<Longrightarrow>
     \<exists>anc. (k, anc) \<in> set (doc_walk (body s)) \<and> list_ex (\<lambda>sel. matches (props s) sel (k, anc)) sels"
  by (auto simp: querySelectorAll_def)



text \<open>
  C9. After a successful \<^verbatim>\<open>leave\<close> no audio element is left anywhere in the
  document, under \<^verbatim>\<open>#videos\<close> or not. Video elements are removed only below
  \<^verbatim>\<open>#videos\<close>: in a document whose nodes are distinct, a video element none of whose
  ancestors is \<^verbatim>\<open>#videos\<close> (or an audio element, which is removed with all it
  contains) stays where it is, with its source still bound.
\<close>

theorem leave_audio_everywhere:
  assumes "leave Resolved s = Normal s'"
  shows "(\<forall>k\<in>set (doc_keys (body s')). localName (props s' k) \<noteq> ''audio'') \<and>
         (distinct (doc_keys (body s)) \<longrightarrow>
            (\<forall>x\<in>set (doc_walk (body s)).
               localName (props s (fst x)) = ''video'' \<and>
               (\<forall>a\<in>set (snd x). el_id (props s a) \<noteq> Some ''videos'' \<and>
                                 localName (props s a) \<noteq> ''audio'') \<longrightarrow>
               x \<in> set (doc_walk (body s')) \<and> props s' (fst x) = props s (fst x)))"
proof -
  let ?ks = "querySelectorAll cleanup_selector s"
  have s': "s' = fold detach_remove ?ks s"
    using assms by (simp add: leave_Resolved)
  have audio: "localName (props s' k) \<noteq> ''audio''" if "k \<in> set (doc_keys (body s'))" for k
  proof
    assume a: "localName (props s' k) = ''audio''"
    from that obtain anc where x: "(k, anc) \<in> set (doc_walk (body s'))"
      unfolding fst_doc_walk [symmetric] by auto
    then have in_s: "(k, anc) \<in> set (doc_walk (body s))" and out: "\<forall>j\<in>set ?ks. outside j (k, anc)"
      unfolding s' walk_fold_detach_remove by auto
    have "localName (props s k) = ''audio''"
      using a unfolding s' by (simp add: props_fold_detach_remove split: if_splits)
    then have "list_ex (\<lambda>sel. matches (props s) sel (k, anc)) cleanup_selector"
      by (simp add: cleanup_selector_def)
    from selected_not_outside [OF in_s this] out show False by blast
  qed
  have video: "x \<in> set (doc_walk (body s')) \<and> props s' (fst x) = props s (fst x)"
    if d: "distinct (doc_keys (body s))"
      and x: "x \<in> set (doc_walk (body s))"
      and v: "localName (props s (fst x)) = ''video''"
      and anc: "\<forall>a\<in>set (snd x). el_id (props s a) \<noteq> Some ''videos'' \<and>
                                  localName (props s a) \<noteq> ''audio''"
    for x
  proof -
    obtain k ancs where kx: "x = (k, ancs)" by (cases x)
    have func: "aa = bb" if "(j, aa) \<in> set (doc_walk (body s))" "(j, bb) \<in> set (doc_walk (body s))"
      for j aa bb
      using d that unfolding fst_doc_walk [symmetric] by (rule eq_key_imp_eq_value)
    have unsel: "j \<notin> set ?ks"
      if j: "(j, aa) \<in> set (doc_walk (body s))" "set aa \<subseteq> set ancs"
        "localName (props s j) \<noteq> ''audio''" for j aa
    proof
      assume "j \<in> set ?ks"
      from selected_entry [OF this] obtain bb where
        bb: "(j, bb) \<in> set (doc_walk (body s))"
            "list_ex (\<lambda>sel. matches (props s) sel (j, bb)) cleanup_selector"
        by blast
      have "bb = aa" using func [OF bb(1) j(1)] .
      with bb(2) j(2,3) anc kx show False
        by (auto simp: cleanup_selector_def list_ex_iff)
    qed
    have k: "k \<notin> set ?ks"
      using unsel [of k ancs] x v kx by simp
    have as: "a \<notin> set ?ks" if "a \<in> set ancs" for a
    proof -
      from doc_walk_ancestor [of k ancs "body s" a] x kx that obtain aa where
        "(a, aa) \<in> set (doc_walk (body s))" "set aa \<subseteq> set ancs" by auto
      then show ?thesis using unsel [of a aa] anc kx that by simp
    qed
    have "\<forall>j\<in>set ?ks. outside j x"
      using k as kx by auto
    then show ?thesis
      using x k kx unfolding s' walk_fold_detach_remove
      by (simp add: props_fold_detach_remove)
  qed
  show ?thesis using audio video by blast
qed

theorem leave_audio_everywhere_witness:
  "leave Resolved stray_page =
     Normal (fold detach_remove [4, 5, 7] stray_page) \<and>
   distinct (doc_keys (body stray_page)) \<and>
   (6, [1]) \<in> set (doc_walk (body stray_page)) \<and>
   localName (props stray_page 6) = ''video'' \<and>
   localName (props stray_page 7) = ''audio'' \<and>
   (7, []) \<in> set (doc_walk (body stray_page)) \<and>
   7 \<notin> set (doc_keys (body (fold detach_remove [4, 5, 7] stray_page))) \<and>
   (6, [1]) \<in> set (doc_walk (body (fold detach_remove [4, 5, 7] stray_page))) \<and>
   props (fold detach_remove [4, 5, 7] stray_page) 6 = props stray_page 6"
proof -
  have l: "leave Resolved stray_page = Normal (fold detach_remove [4, 5, 7] stray_page)"
    by (simp add: model_defs detach_remove_def stray_page_def)
  have d: "distinct (doc_keys (body stray_page))"
    by (simp add: doc_keys_def stray_page_def)
  have w: "doc_walk (body stray_page) =
      [(0, []), (3, [0]), (4, [3, 0]), (5, [0]), (1, []), (6, [1]), (7, [])]"
    by (simp add: doc_walk_def stray_page_def)
  have p: "localName (props stray_page 6) = ''video''" "localName (props stray_page 7) = ''audio''"
    "localName (props stray_page 1) = ''div''" "el_id (props stray_page 1) = Some ''preview''"
    by (simp_all add: stray_page_def blank_def)
  have k: "doc_keys (body (fold detach_remove [4, 5, 7] stray_page)) = [0, 3, 1, 6]"
    by (simp add: model_defs detach_remove_def stray_page_def)
  show ?thesis
    using leave_audio_everywhere [OF l] l d w p k
    by auto
qed

section \<open>What the handler can add to the document\<close>

lemma getElementById_None: "getElementById i s = None \<longleftrightarrow> count_id i s = 0"
  by (auto simp: getElementById_def count_id_def count_where_def find_None_iff filter_empty_conv)

lemma getElementById_in_doc: "getElementById i s = Some k \<Longrightarrow> k \<in> set (doc_keys (body s))"
  by (auto simp: getElementById_def find_Some_iff)

lemma length_filter_fst_filter:
  "length (filter P (map fst (filter R w))) \<le> length (filter P (map fst w))"
  by (induction w) auto

lemma count_where_same:
  assumes "body s' = body s"
    and "\<And>k. localName (props s' k) = localName (props s k)"
    and "\<And>k. el_id (props s' k) = el_id (props s k)"
  shows "count_where P s' = count_where P s"
  using assms by (simp add: count_where_def)

lemma count_where_set_srcObject [simp]:
  "count_where P (set_srcObject k v s) = count_where P s"
  by (rule count_where_same) (simp_all add: set_srcObject_def)

lemma count_where_set_display [simp]:
  "count_where P (set_display k v s) = count_where P s"
  by (rule count_where_same) (simp_all add: set_display_def)

lemma count_where_set_onloadedmetadata [simp]:
  "count_where P (set_onloadedmetadata k v s) = count_where P s"
  by (rule count_where_same) (simp_all add: set_onloadedmetadata_def)

lemma count_where_console_error [simp]:
  "count_where P (console_error m s) = count_where P s"
  by (rule count_where_same) (simp_all add: console_error_def)

lemma count_where_shrink:
  assumes "doc_keys (body s') = map fst (filter R (doc_walk (body s)))"
    and "\<And>k. localName (props s' k) = localName (props s k)"
    and "\<And>k. el_id (props s' k) = el_id (props s k)"
  shows "count_where P s' \<le> count_where P s"
proof -
  have k: "doc_keys (body s) = map fst (doc_walk (body s))"
    by (simp add: fst_doc_walk)
  show ?thesis
    unfolding count_where_def assms(2,3) assms(1) k
    by (rule length_filter_fst_filter)
qed

lemma count_where_remove_node: "count_where P (remove_node k s) \<le> count_where P s"
  by (rule count_where_shrink [where R = "outside k"])
     (simp_all add: remove_node_def fst_doc_walk [symmetric] doc_walk_remove)

lemma count_where_set_textContent: "count_where P (set_textContent k v s) \<le> count_where P s"
  by (rule count_where_shrink [where R = "\<lambda>x. k \<notin> set (snd x)"])
     (simp_all add: set_textContent_def fst_doc_walk [symmetric] doc_walk_clear_children)

lemma count_where_startOrUpdateTrack:
  "count_where P (state_of (startOrUpdateTrack tt ti pid s)) = count_where P s"
proof -
  have r: "count_where P (s\<lparr>reconciled := r\<rparr>) = count_where P s" for r
    by (rule count_where_same) simp_all
  have st: "count_where P (s\<lparr>reconciled := r, streams := n\<rparr>) = count_where P s" for r n
    by (rule count_where_same) simp_all
  show ?thesis
    by (simp add: startOrUpdateTrack_def Let_def r st split: option.splits sum.splits)
qed

lemma count_where_and_then:
  assumes "\<And>s. count_where P (state_of (f s)) \<le> count_where P s"
  shows "count_where P (state_of (and_then r f)) \<le> count_where P (state_of r)"
  using assms by (cases r) simp_all

lemma count_where_forEach:
  assumes "\<And>x s. count_where P (state_of (f x s)) \<le> count_where P s"
  shows "count_where P (state_of (forEach f xs s)) \<le> count_where P s"
proof (induction xs arbitrary: s)
  case Nil
  then show ?case by simp
next
  case (Cons x xs)
  have "count_where P (state_of (and_then (f x s) (forEach f xs))) \<le>
        count_where P (state_of (f x s))"
    by (rule count_where_and_then) (rule Cons.IH)
  also have "\<dots> \<le> count_where P s" by (rule assms)
  finally show ?case by simp
qed

lemma count_where_destroyTrack:
  "count_where P (state_of (destroyTrack pid tt s)) \<le> count_where P s"
  using count_where_remove_node [of P _ "set_srcObject _ None s"]
  by (simp add: destroyTrack_def split: option.splits)

lemma count_where_destroyTracks:
  "count_where P (state_of (destroyTracks tts pid s)) \<le> count_where P s"
  unfolding destroyTracks_def by (rule count_where_forEach) (rule count_where_destroyTrack)

lemma count_where_updateVideoUi:
  "count_where P (state_of (updateVideoUi ti pid s)) \<le> count_where P s"
  by (simp add: updateVideoUi_def split: option.splits)

lemma count_where_updateUiForDevicesState:
  "count_where P (state_of (updateUiForDevicesState tt ti s)) \<le> count_where P s"
  by (simp add: updateUiForDevicesState_def count_where_set_textContent split: option.splits)

lemma count_where_track_entry:
  "count_where P (state_of (track_entry l pid entry s)) \<le> count_where P s"
proof -
  let ?first = "if persistentTrack (snd entry) \<noteq> None
            then (if \<not> (l \<and> fst entry = ''audio'')
                  then startOrUpdateTrack (fst entry) (snd entry) pid s
                  else Normal s)
            else destroyTracks [fst entry] pid s"
  let ?second = "\<lambda>s. if fst entry = ''video'' then updateVideoUi (snd entry) pid s
                else Normal s"
  let ?third = "\<lambda>s. if l then updateUiForDevicesState (fst entry) (snd entry) s else Normal s"
  have 1: "count_where P (state_of ?first) \<le> count_where P s"
    by (simp add: count_where_startOrUpdateTrack count_where_destroyTracks)
  have 2: "count_where P (state_of (?second s)) \<le> count_where P s" for s
    by (simp add: count_where_updateVideoUi)
  have 3: "count_where P (state_of (?third s)) \<le> count_where P s" for s
    by (simp add: count_where_updateUiForDevicesState)
  have "count_where P (state_of (and_then (and_then ?first ?second) ?third)) \<le>
        count_where P (state_of (and_then ?first ?second))"
    by (rule count_where_and_then) (rule 3)
  also have "\<dots> \<le> count_where P (state_of ?first)"
    by (rule count_where_and_then) (rule 2)
  also note 1
  finally show ?thesis by (simp add: track_entry_def Let_def)
qed

lemma fold_max_bound: "m \<le> fold max ks m \<and> (\<forall>k\<in>set ks. k \<le> fold max ks (m::nat))"
proof (induction ks arbitrary: m)
  case Nil
  then show ?case by simp
next
  case (Cons k ks)
  from Cons [of "max k m"] show ?case by auto
qed

lemma fresh_key_new: "k \<in> set (doc_keys b) \<Longrightarrow> k < fresh_key b"
  using fold_max_bound [of 0 "doc_keys b"] by (auto simp: fresh_key_def)

lemma count_graft:
  "length (filter F (keys_of (graft p new t))) =
     length (filter F (keys_of t)) +
       (if p \<in> set (keys_of t) then length (filter F (keys_of new)) else 0)"
  "length (filter F (doc_keys (graft_list p new ts))) =
     length (filter F (doc_keys ts)) +
       (if p \<in> set (doc_keys ts) then length (filter F (keys_of new)) else 0)"
proof (induction p new t and p new ts rule: graft_graft_list.induct)
  case (1 p new j ts)
  then show ?case by (auto simp: doc_keys_def)
next
  case (2 p new)
  then show ?case by (simp add: doc_keys_def)
next
  case (3 p new t ts)
  then show ?case by (auto simp: doc_keys_def)
qed

lemma doc_keys_snoc: "doc_keys (b @ [t]) = doc_keys b @ keys_of t"
  by (simp add: doc_keys_def)

lemma count_house:
  "length (filter F (doc_keys (house new s))) =
     length (filter F (doc_keys (body s))) + length (filter F (keys_of new))"
  by (auto simp: house_def count_graft doc_keys_snoc dest: getElementById_in_doc
      split: option.splits)

lemma count_where_createVideoContainer:
  "count_where P (createVideoContainer pid s) =
     count_where P s + of_bool (P ''div'' (Some (''video-container-'' @ pid)))
                     + of_bool (P ''video'' None)"
proof -
  let ?c = "fresh_key (body s)"
  let ?pr = "(props s)
          (?c := blank ''div'' (Some (''video-container-'' @ pid)) [''video-container''],
           Suc ?c := blank ''video'' None [''video-element''])"
  let ?F = "\<lambda>k. P (localName (?pr k)) (el_id (?pr k))"
  have old: "filter ?F (doc_keys (body s)) =
             filter (\<lambda>k. P (localName (props s k)) (el_id (props s k))) (doc_keys (body s))"
    by (rule filter_cong) (auto dest: fresh_key_new)
  have new: "length (filter ?F (keys_of (Tree ?c [Tree (Suc ?c) []]))) =
       of_bool (P ''div'' (Some (''video-container-'' @ pid))) + of_bool (P ''video'' None)"
    by (simp add: blank_def)
  have b: "body (createVideoContainer pid s) = house (Tree ?c [Tree (Suc ?c) []]) s"
    and p: "props (createVideoContainer pid s) = ?pr"
    by (simp_all add: createVideoContainer_def Let_def)
  show ?thesis
    unfolding count_where_def b p count_house old new by simp
qed

lemma count_where_createAudioElement:
  "count_where P (createAudioElement pid s) =
     count_where P s + of_bool (P ''audio'' (Some (''audio-'' @ pid)))"
proof -
  let ?a = "fresh_key (body s)"
  let ?pr = "(props s)(?a := blank ''audio'' (Some (''audio-'' @ pid)) [])"
  let ?F = "\<lambda>k. P (localName (?pr k)) (el_id (?pr k))"
  have old: "filter ?F (doc_keys (body s)) =
             filter (\<lambda>k. P (localName (props s k)) (el_id (props s k))) (doc_keys (body s))"
    by (rule filter_cong) (auto dest: fresh_key_new)
  have new: "length (filter ?F (keys_of (Tree ?a []))) =
       of_bool (P ''audio'' (Some (''audio-'' @ pid)))"
    by (simp add: blank_def)
  have b: "body (createAudioElement pid s) = house (Tree ?a []) s"
    and p: "props (createAudioElement pid s) = ?pr"
    by (simp_all add: createAudioElement_def Let_def)
  show ?thesis
    unfolding count_where_def b p count_house old new by simp
qed

lemma count_where_updateAndDisplayParticipantCount [simp]:
  "count_where P (updateAndDisplayParticipantCount s) = count_where P s"
  by (rule count_where_same) (simp_all add: updateAndDisplayParticipantCount_def)

text \<open>
  One event adds at most a container with its video element, when no container of the
  participant is on the page, and an audio element, when the participant is remote
  and has none; everything after the two checks only rebinds, hides or removes.
\<close>

lemma count_where_handler:
  "count_where P (state_of (handleParticipantJoinedOrUpdated ev s)) \<le>
     count_where P s +
       (if count_id (''video-container-'' @ session_id (participant ev)) s = 0
        then of_bool (P ''div'' (Some (''video-container-'' @ session_id (participant ev))))
             + of_bool (P ''video'' None)
        else 0) +
       (if count_id (''audio-'' @ session_id (participant ev)) s = 0 \<and> \<not> local (participant ev)
        then of_bool (P ''audio'' (Some (''audio-'' @ session_id (participant ev))))
        else 0)"
proof -
  define pid where "pid = session_id (participant ev)"
  define s1 where "s1 = updateAndDisplayParticipantCount s"
  define s2 where "s2 = (if getElementById (''video-container-'' @ pid) s1 = None
             then createVideoContainer pid s1 else s1)"
  define s3 where "s3 = (if getElementById (''audio-'' @ pid) s2 = None \<and> \<not> local (participant ev)
             then createAudioElement pid s2 else s2)"
  have c1: "count_id i s1 = count_id i s" for i
    by (simp add: count_id_def s1_def)
  have a2: "count_id (''audio-'' @ pid) s2 = count_id (''audio-'' @ pid) s"
    using c1 by (simp add: s2_def count_id_def count_where_createVideoContainer)
  have s2: "count_where P s2 = count_where P s +
       (if count_id (''video-container-'' @ pid) s = 0
        then of_bool (P ''div'' (Some (''video-container-'' @ pid))) + of_bool (P ''video'' None)
        else 0)"
    by (simp add: s2_def getElementById_None c1 count_where_createVideoContainer)
       (simp add: s1_def)
  have s3: "count_where P s3 = count_where P s2 +
       (if count_id (''audio-'' @ pid) s = 0 \<and> \<not> local (participant ev)
        then of_bool (P ''audio'' (Some (''audio-'' @ pid))) else 0)"
    using a2 by (simp add: s3_def getElementById_None count_where_createAudioElement)
  have "handleParticipantJoinedOrUpdated ev s =
        forEach (track_entry (local (participant ev)) pid) (tracks (participant ev)) s3"
    unfolding handleParticipantJoinedOrUpdated_def Let_def s3_def s2_def s1_def pid_def
    by (rule refl)
  then have "count_where P (state_of (handleParticipantJoinedOrUpdated ev s)) \<le> count_where P s3"
    by (simp add: count_where_forEach count_where_track_entry)
  then show ?thesis unfolding s3 s2 pid_def by simp
qed

lemma count_id_handler:
  assumes "count_id i s \<le> 1"
  shows "count_id i (state_of (handleParticipantJoinedOrUpdated ev s)) \<le> 1"
proof -
  define c where "c = ''video-container-'' @ session_id (participant ev)"
  define a where "a = ''audio-'' @ session_id (participant ev)"
  have ca: "c \<noteq> a" by (simp add: c_def a_def)
  note bound = count_where_handler
    [of "\<lambda>t j. j = Some i" ev s, folded c_def a_def, folded count_id_def]
  show ?thesis
    using bound assms ca
    by (cases "i = c"; cases "i = a"; simp split: if_splits)
qed

lemma count_id_dispatch:
  "count_id i s \<le> 1 \<Longrightarrow> count_id i (dispatch evs s) \<le> 1"
proof (induction evs arbitrary: s)
  case Nil
  then show ?case by (simp add: dispatch_def)
next
  case (Cons ev evs)
  from Cons.IH [OF count_id_handler [OF Cons.prems, of ev]]
  show ?case by (simp add: dispatch_def)
qed

text \<open>
  C7. For every participant id \<open>q\<close>: if the page has at most one container
  \<^verbatim>\<open>video-container-q\<close>, it still has at most one after any sequence of joined/updated
  events, and the same holds for the audio element \<^verbatim>\<open>audio-q\<close>. An event for the local
  participant does not add an audio element. And an event for a participant whose
  container is on the page, and who is local or has an audio element on the page, adds
  no node of any kind.
\<close>

theorem idempotent_creation:
  "(count_id (''video-container-'' @ q) s \<le> 1 \<longrightarrow>
      count_id (''video-container-'' @ q) (dispatch evs s) \<le> 1) \<and>
   (count_id (''audio-'' @ q) s \<le> 1 \<longrightarrow>
      count_id (''audio-'' @ q) (dispatch evs s) \<le> 1) \<and>
   (local (participant ev) \<longrightarrow>
      count_where (\<lambda>t i. t = ''audio'') (state_of (handleParticipantJoinedOrUpdated ev s))
        \<le> count_where (\<lambda>t i. t = ''audio'') s) \<and>
   (getElementById (''video-container-'' @ session_id (participant ev)) s \<noteq> None \<and>
    (getElementById (''audio-'' @ session_id (participant ev)) s \<noteq> None \<or>
     local (participant ev)) \<longrightarrow>
      (\<forall>P. count_where P (state_of (handleParticipantJoinedOrUpdated ev s))
             \<le> count_where P s))"
proof -
  have audio: "count_where (\<lambda>t i. t = ''audio'') (state_of (handleParticipantJoinedOrUpdated ev s))
        \<le> count_where (\<lambda>t i. t = ''audio'') s" if "local (participant ev)"
    using count_where_handler [of "\<lambda>t i. t = ''audio''" ev s] that
    by (simp split: if_splits)
  have again: "count_where P (state_of (handleParticipantJoinedOrUpdated ev s)) \<le> count_where P s"
    if "getElementById (''video-container-'' @ session_id (participant ev)) s \<noteq> None"
      and "getElementById (''audio-'' @ session_id (participant ev)) s \<noteq> None \<or>
           local (participant ev)" for P
    using count_where_handler [of P ev s] that
    by (auto simp: getElementById_None)
  show ?thesis
    using audio again
      count_id_dispatch [of "''video-container-'' @ q" s evs]
      count_id_dispatch [of "''audio-'' @ q" s evs]
    by blast
qed

theorem idempotent_creation_witness:
  "count_id (''video-container-'' @ ''p'') bare_page \<le> 1 \<and>
   count_id (''audio-'' @ ''p'') bare_page \<le> 1 \<and>
   count_id (''video-container-'' @ ''p'')
     (dispatch [sample_event ''p'' False ''playable'' (Some 7) (Some 8),
                sample_event ''p'' False ''playable'' (Some 7) (Some 8)] bare_page) \<le> 1 \<and>
   count_id (''audio-'' @ ''p'')
     (dispatch [sample_event ''p'' False ''playable'' (Some 7) (Some 8),
                sample_event ''p'' False ''playable'' (Some 7) (Some 8)] bare_page) \<le> 1 \<and>
   local (participant (sample_event ''me'' True ''playable'' (Some 7) (Some 8))) \<and>
   count_where (\<lambda>t i. t = ''audio'')
     (state_of (handleParticipantJoinedOrUpdated
        (sample_event ''me'' True ''playable'' (Some 7) (Some 8)) bare_page)) \<le>
   count_where (\<lambda>t i. t = ''audio'') bare_page \<and>
   getElementById (''video-container-'' @ ''p'') bound_page \<noteq> None \<and>
   getElementById (''audio-'' @ ''p'') bound_page \<noteq> None \<and>
   (\<forall>P. count_where P (state_of (handleParticipantJoinedOrUpdated
             (sample_event ''p'' False ''playable'' (Some 7) (Some 8)) bound_page))
        \<le> count_where P bound_page)"
proof -
  have c: "count_id (''video-container-'' @ ''p'') bare_page \<le> 1"
    by (simp add: count_id_def count_where_def doc_keys_def bare_page_def blank_def)
  have a: "count_id (''audio-'' @ ''p'') bare_page \<le> 1"
    by (simp add: count_id_def count_where_def doc_keys_def bare_page_def blank_def)
  have l: "local (participant (sample_event ''me'' True ''playable'' (Some 7) (Some 8)))"
    by (simp add: sample_event_def)
  have g: "getElementById (''video-container-'' @ ''p'') bound_page \<noteq> None"
    "getElementById (''audio-'' @ ''p'') bound_page \<noteq> None"
    by (simp_all add: getElementById_def doc_keys_def bound_page_def blank_def)
  have s: "session_id (participant (sample_event ''p'' False ''playable'' (Some 7) (Some 8))) = ''p''"
    "session_id (participant (sample_event ''me'' True ''playable'' (Some 7) (Some 8))) = ''me''"
    by (simp_all add: sample_event_def)
  show ?thesis
    using c a l g s
      idempotent_creation [of "''p''" bare_page
        "[sample_event ''p'' False ''playable'' (Some 7) (Some 8),
          sample_event ''p'' False ''playable'' (Some 7) (Some 8)]"
        "sample_event ''me'' True ''playable'' (Some 7) (Some 8)"]
      idempotent_creation [of "''p''" bound_page "[]"
        "sample_event ''p'' False ''playable'' (Some 7) (Some 8)"]
    by simp
qed

section \<open>Losing a track\<close>

lemma count_where_mono:
  assumes "\<And>t i. P t i \<Longrightarrow> Q t i"
  shows "count_where P s \<le> count_where Q s"
proof -
  have "length (filter A ks) \<le> length (filter B ks)" if "\<And>k. A k \<Longrightarrow> B k"
    for A B and ks :: "nat list"
    using that by (induction ks) auto
  then show ?thesis using assms by (simp add: count_where_def)
qed

lemma conventional_count:
  "conventional qs s \<longleftrightarrow> count_where (\<lambda>t. foreign_video_id qs) s = 0"
  by (auto simp: conventional_def count_where_def list_all_iff filter_empty_conv)

lemma conventional_handler:
  assumes "conventional qs s"
  shows "conventional (session_id (participant ev) # qs)
           (state_of (handleParticipantJoinedOrUpdated ev s))"
proof -
  define pid where "pid = session_id (participant ev)"
  have f: "\<not> foreign_video_id (pid # qs) (Some (''video-container-'' @ pid))"
    "\<not> foreign_video_id (pid # qs) None"
    "\<not> foreign_video_id (pid # qs) (Some (''audio-'' @ pid))"
    by (simp_all add: foreign_video_id_def)
  have "count_where (\<lambda>t. foreign_video_id (pid # qs))
          (state_of (handleParticipantJoinedOrUpdated ev s)) \<le>
        count_where (\<lambda>t. foreign_video_id (pid # qs)) s"
    using count_where_handler [of "\<lambda>t. foreign_video_id (pid # qs)" ev s] f
    unfolding pid_def by (simp split: if_splits)
  also have "\<dots> \<le> count_where (\<lambda>t. foreign_video_id qs) s"
    by (rule count_where_mono) (auto simp: foreign_video_id_def split: option.splits)
  finally show ?thesis using assms by (simp add: conventional_count pid_def)
qed

lemma conventional_dispatch:
  "conventional qs s \<Longrightarrow>
   conventional (rev (map (\<lambda>ev. session_id (participant ev)) evs) @ qs) (dispatch evs s)"
proof (induction evs arbitrary: qs s)
  case Nil
  then show ?case by (simp add: dispatch_def)
next
  case (Cons ev evs)
  from Cons.IH [OF conventional_handler [OF Cons.prems, of ev]]
  show ?case by (simp add: dispatch_def)
qed

lemma conventional_lookup:
  assumes "conventional qs s" and "pid \<notin> set (map (\<lambda>q. ''container-'' @ q) qs)"
  shows "getElementById (''video-'' @ pid) s = None"
proof -
  have "\<not> (el_id (props s k) = Some (''video-'' @ pid))" if "k \<in> set (doc_keys (body s))" for k
  proof
    assume "el_id (props s k) = Some (''video-'' @ pid)"
    then have "foreign_video_id qs (el_id (props s k))"
      using assms(2) by (simp add: foreign_video_id_def)
    with that assms(1) show False
      by (auto simp: conventional_def list_all_iff)
  qed
  then show ?thesis
    by (auto simp: getElementById_def find_None_iff)
qed

text \<open>
  C3, as the code has it. \<^verbatim>\<open>destroyTracks\<close> with track type \<^verbatim>\<open>video\<close> looks up the id
  \<^verbatim>\<open>video-{id}\<close>. Start from a page on which the only ids beginning with \<^verbatim>\<open>video-\<close>
  are containers of the participants \<open>qs\<close>, and handle any events. If the participant
  id is not \<^verbatim>\<open>container-\<close> followed by the id of one of \<open>qs\<close> or of a participant of
  these events, no element has the id looked up, and the call returns with the page
  exactly as it was: no video element is removed.
\<close>

theorem destroyTracks_video_frame:
  assumes "conventional qs s"
    and "participantId \<notin>
           set (map (\<lambda>q. ''container-'' @ q) (qs @ map (\<lambda>ev. session_id (participant ev)) evs))"
  shows "destroyTracks [''video''] participantId (dispatch evs s) = Normal (dispatch evs s)"
proof -
  have "conventional (rev (map (\<lambda>ev. session_id (participant ev)) evs) @ qs) (dispatch evs s)"
    using assms(1) by (rule conventional_dispatch)
  moreover have "participantId \<notin> set (map (\<lambda>q. ''container-'' @ q)
      (rev (map (\<lambda>ev. session_id (participant ev)) evs) @ qs))"
    using assms(2) by auto
  ultimately have "getElementById (''video-'' @ participantId) (dispatch evs s) = None"
    by (rule conventional_lookup)
  then show ?thesis
    by (simp add: destroyTracks_def destroyTrack_def)
qed

theorem destroyTracks_video_frame_witness:
  "conventional [] bare_page \<and>
   ''p'' \<notin> set (map (\<lambda>q. ''container-'' @ q)
     ([] @ map (\<lambda>ev. session_id (participant ev))
        [sample_event ''p'' False ''playable'' (Some 7) (Some 8)])) \<and>
   lookup_trackEl ''video'' ''p''
     (dispatch [sample_event ''p'' False ''playable'' (Some 7) (Some 8)] bare_page) =
       Inr (Some 4) \<and>
   destroyTracks [''video''] ''p''
     (dispatch [sample_event ''p'' False ''playable'' (Some 7) (Some 8)] bare_page) =
   Normal (dispatch [sample_event ''p'' False ''playable'' (Some 7) (Some 8)] bare_page)"
proof -
  have c: "conventional [] bare_page"
    by (simp add: conventional_def foreign_video_id_def doc_keys_def
        bare_page_def blank_def)
  have n: "''p'' \<notin> set (map (\<lambda>q. ''container-'' @ q)
     ([] @ map (\<lambda>ev. session_id (participant ev))
        [sample_event ''p'' False ''playable'' (Some 7) (Some 8)]))"
    by (simp add: sample_event_def)
  have v: "lookup_trackEl ''video'' ''p''
     (dispatch [sample_event ''p'' False ''playable'' (Some 7) (Some 8)] bare_page) =
       Inr (Some 4)"
    by (simp add: model_defs bare_page_def)
  show ?thesis
    using c n v destroyTracks_video_frame [OF c n] by simp
qed

text \<open>
  C3 as stated, for every participant id, fails: for the id \<^verbatim>\<open>container-p\<close> the id
  looked up is \<^verbatim>\<open>video-container-p\<close>, the container of participant \<^verbatim>\<open>p\<close>, which is
  removed together with the video element in it.
\<close>

theorem destroyTracks_video_counterexample:
  "conventional [''p''] bound_page \<and>
   lookup_trackEl ''video'' ''p'' bound_page = Inr (Some 4) \<and>
   getElementById (''video-'' @ ''container-p'') bound_page = Some 3 \<and>
   doc_keys (body bound_page) = [0, 3, 4, 5, 1, 2] \<and>
   doc_keys (body (state_of (destroyTracks [''video''] ''container-p'' bound_page))) =
     [0, 5, 1, 2] \<and>
   destroyTracks [''video''] ''container-p'' bound_page \<noteq> Normal bound_page"
proof -
  have k: "doc_keys (body (state_of (destroyTracks [''video''] ''container-p'' bound_page))) =
     [0, 5, 1, 2]"
    by (simp add: model_defs bound_page_def)
  have k0: "doc_keys (body bound_page) = [0, 3, 4, 5, 1, 2]"
    by (simp add: doc_keys_def bound_page_def)
  have "destroyTracks [''video''] ''container-p'' bound_page \<noteq> Normal bound_page"
  proof
    assume "destroyTracks [''video''] ''container-p'' bound_page = Normal bound_page"
    with k k0 show False by simp
  qed
  moreover have "conventional [''p''] bound_page"
    by (simp add: conventional_def foreign_video_id_def doc_keys_def
        bound_page_def blank_def)
  moreover have "lookup_trackEl ''video'' ''p'' bound_page = Inr (Some 4)"
    by (simp add: model_defs bound_page_def)
  moreover have "getElementById (''video-'' @ ''container-p'') bound_page = Some 3"
    by (simp add: model_defs bound_page_def)
  ultimately show ?thesis using k k0 by simp
qed

text \<open>
  C1 at an event whose video and audio descriptors carry no live handle, on the page
  where \<^verbatim>\<open>p\<close> has a bound video element (node 4) and a bound audio element (node 5).
  The handler returns normally. The audio element is out of the document with its
  source set to null. The video element is still in the document and its source is
  still bound: the id \<^verbatim>\<open>video-p\<close> that \<^verbatim>\<open>destroyTracks\<close> looks up is the id of no
  element.
\<close>

theorem video_track_loss_keeps_element:
  "handleParticipantJoinedOrUpdated (sample_event ''p'' False ''off'' None None) bound_page =
     Normal (state_of
       (handleParticipantJoinedOrUpdated (sample_event ''p'' False ''off'' None None) bound_page)) \<and>
   lookup_trackEl ''video'' ''p'' bound_page = Inr (Some 4) \<and>
   getElementById (''audio-'' @ ''p'') bound_page = Some 5 \<and>
   doc_keys (body (state_of
     (handleParticipantJoinedOrUpdated (sample_event ''p'' False ''off'' None None) bound_page))) =
     [0, 3, 4, 1, 2] \<and>
   srcObject (props (state_of
     (handleParticipantJoinedOrUpdated (sample_event ''p'' False ''off'' None None) bound_page)) 4) =
     Some (MediaStream 0 [7]) \<and>
   srcObject (props (state_of
     (handleParticipantJoinedOrUpdated (sample_event ''p'' False ''off'' None None) bound_page)) 5) =
     None"
  by (simp add: model_defs bound_page_def)

section \<open>A missing video element\<close>

text \<open>
  The two lookups of the video element disagree on what to do when it is missing.
  Whenever the lookup of \<^verbatim>\<open>startOrUpdateTrack\<close> finds no video element for a
  participant whose id is a name, \<^verbatim>\<open>updateVideoUi\<close> throws, and so does the handler's
  callback on a video descriptor, with or without a live handle.
\<close>

lemma updateVideoUi_missing_element:
  assumes "lookup_trackEl ''video'' participantId s = Inr None" and "css_name participantId"
  shows "updateVideoUi track participantId s = Raised TypeError s"
proof (cases "getElementById (''video-container-'' @ participantId) s")
  case None
  then show ?thesis by (simp add: updateVideoUi_def)
next
  case (Some container)
  have cid: "el_id (props s container) = Some (''video-container-'' @ participantId)"
    using Some by (auto simp: getElementById_def find_Some_iff)
  have no_match: "\<not> matches (props s)
      (Descendant (ById (''video-container-'' @ participantId))
                  (ByTagClass ''video'' ''video-element'')) x"
    if "x \<in> set (doc_walk (body s))" for x
    using assms that
    by (cases x) (auto simp: lookup_trackEl_def querySelector_def find_None_iff)
  have "element_querySelector container (ByTagClass ''video'' ''video-element'') s = None"
  proof (rule ccontr)
    assume "element_querySelector container (ByTagClass ''video'' ''video-element'') s \<noteq> None"
    then obtain k anc where x: "(k, anc) \<in> set (doc_walk (body s))" "container \<in> set anc"
      "matches_compound (props s k) (ByTagClass ''video'' ''video-element'')"
      by (auto simp: element_querySelector_def find_None_iff)
    have "list_ex (\<lambda>a. matches_compound (props s a) (ById (''video-container-'' @ participantId))) anc"
      unfolding list_ex_iff using x(2) cid by auto
    then have "matches (props s)
      (Descendant (ById (''video-container-'' @ participantId))
                  (ByTagClass ''video'' ''video-element'')) (k, anc)"
      using x(3) by simp
    with no_match [OF x(1)] show False by simp
  qed
  with Some show ?thesis by (simp add: updateVideoUi_def)
qed

lemma lookup_trackEl_video_detach_remove:
  assumes "lookup_trackEl ''video'' participantId s = Inr None" and "css_name participantId"
  shows "lookup_trackEl ''video'' participantId (detach_remove k s) = Inr None"
proof -
  have w: "doc_walk (body (detach_remove k s)) = filter (outside k) (doc_walk (body s))"
    by (simp add: detach_remove_def remove_node_def set_srcObject_def doc_walk_remove)
  have m: "matches (props (detach_remove k s)) sel x = matches (props s) sel x" for sel x
    using matches_fold_detach_remove [of "[k]" s sel x] by simp
  show ?thesis
    using assms
    by (simp add: lookup_trackEl_def querySelector_def find_None_iff w m)
qed

lemma video_entry_raises:
  assumes "lookup_trackEl ''video'' participantId s = Inr None" and "css_name participantId"
  shows "\<exists>s'. track_entry isLocal participantId (''video'', trackInfo) s = Raised TypeError s'"
proof (cases "persistentTrack trackInfo")
  case None
  have "\<exists>s1. destroyTracks [''video''] participantId s = Normal s1 \<and>
          lookup_trackEl ''video'' participantId s1 = Inr None"
    using assms(1) lookup_trackEl_video_detach_remove [OF assms]
    by (auto simp: destroyTracks_def destroyTrack_def detach_remove_def split: option.splits)
  then obtain s1 where s1: "destroyTracks [''video''] participantId s = Normal s1"
    "lookup_trackEl ''video'' participantId s1 = Inr None" by blast
  show ?thesis
    using None s1 updateVideoUi_missing_element [OF s1(2) assms(2), of trackInfo]
    by (simp add: track_entry_def)
next
  case (Some t)
  let ?s1 = "s\<lparr>reconciled := reconciled s @ [(''video'', participantId)],
               console := console s @
                 [[''video'' @ '' element does not exist for participant: '' @ participantId]]\<rparr>"
  have first: "startOrUpdateTrack ''video'' trackInfo participantId s = Normal ?s1"
    using assms(1) by (simp add: startOrUpdateTrack_def console_error_def)
  have "lookup_trackEl ''video'' participantId ?s1 = Inr None"
    using assms by (simp add: lookup_trackEl_def querySelector_def)
  from updateVideoUi_missing_element [OF this assms(2), of trackInfo] first Some
  show ?thesis
    by (simp add: track_entry_def)
qed

text \<open>
  C2 at an event with live video and audio handles, on a page where the container of
  \<^verbatim>\<open>p\<close> holds no video element. \<^verbatim>\<open>startOrUpdateTrack\<close> logs the missing element and
  returns; \<^verbatim>\<open>updateVideoUi\<close>, called next for the same track, reads \<^verbatim>\<open>.style\<close> of
  \<^verbatim>\<open>null\<close>, and the TypeError leaves the handler: the audio descriptor of the event is
  never looked at, and the audio element of \<^verbatim>\<open>p\<close> (node 4) stays unbound.
\<close>

theorem missing_video_element_throws:
  "lookup_trackEl ''video'' ''p'' childless_page = Inr None \<and>
   handleParticipantJoinedOrUpdated
       (sample_event ''p'' False ''playable'' (Some 7) (Some 8)) childless_page =
     Raised TypeError (state_of (handleParticipantJoinedOrUpdated
       (sample_event ''p'' False ''playable'' (Some 7) (Some 8)) childless_page)) \<and>
   console (state_of (handleParticipantJoinedOrUpdated
       (sample_event ''p'' False ''playable'' (Some 7) (Some 8)) childless_page)) =
     [[''video element does not exist for participant: p'']] \<and>
   reconciled (state_of (handleParticipantJoinedOrUpdated
       (sample_event ''p'' False ''playable'' (Some 7) (Some 8)) childless_page)) =
     [(''video'', ''p'')] \<and>
   srcObject (props (state_of (handleParticipantJoinedOrUpdated
       (sample_event ''p'' False ''playable'' (Some 7) (Some 8)) childless_page)) 4) = None"
  by (simp add: model_defs childless_page_def)

end
